theory Spec2Isabelle
  imports Main
begin

section \<open>forzen-db: the connection lifecycle and the SQL builders of \<open>ForzenSqliteDb\<close>\<close>

text \<open>
  The class \<open>ForzenSqliteDb\<close> of \<open>src/db.ts\<close> keeps one field, \<open>db: Database | null\<close>,
  and forwards statements to the \<open>sqlite\<close> driver. Every method is an \<open>async\<close> function
  whose body awaits each driver call before going on, so a method is embedded as a
  function from the state before the call to its completion (a value, or the thrown
  error) and the state after it. A throw keeps the state reached so far: that is what
  the \<open>finally\<close> blocks and the callers observe.
\<close>

subsection \<open>Values, errors, state\<close>

datatype jsval = JUndefined | JNull | JNum int | JStr string

type_synonym row = "(string \<times> jsval) list"

text \<open>
  What a method resolves to (the source casts the driver's answer to \<open>T\<close>): nothing,
  one row, the metadata object of the driver's \<open>run\<close> (\<open>lastID\<close>, \<open>changes\<close>), or the
  array of rows of \<open>all\<close>.
\<close>

datatype result = Undefined | Row row | RunResult nat nat | Rows "row list"

text \<open>
  A thrown value is either the rejection of a driver promise, passed on unchanged, or a
  string thrown by the class itself (\<open>throw 'DATABASE ERROR'\<close>).
\<close>

datatype error = DriverError string | Thrown string

definition DATABASE_ERROR :: error where
  "DATABASE_ERROR = Thrown ''DATABASE ERROR''"

type_synonym handle = nat

text \<open>
  \<open>db\<close> is the field of the class. \<open>live\<close> lists the driver connections that were opened
  and not closed since, newest first; \<open>next_handle\<close> names the next connection
  the driver hands out. \<open>console\<close> collects the lines of \<open>console.log\<close>, and \<open>engine\<close> is
  the state of the database file, of which the class knows nothing.
\<close>

record 'w state =
  db :: "handle option"
  live :: "handle list"
  next_handle :: handle
  console :: "string list"
  engine :: 'w

text \<open>
  The \<open>sqlite\<close> driver is not part of the repository: it is a parameter. Each of its
  calls answers with a rejection (\<open>Inl\<close>) or a value, and may change the engine.
\<close>

record 'w driver =
  drv_open :: "'w \<Rightarrow> (string + unit) \<times> 'w"
  drv_close :: "handle \<Rightarrow> 'w \<Rightarrow> (string + unit) \<times> 'w"
  drv_exec :: "handle \<Rightarrow> string \<Rightarrow> 'w \<Rightarrow> (string + unit) \<times> 'w"
  drv_run :: "handle \<Rightarrow> string \<Rightarrow> jsval list \<Rightarrow> 'w \<Rightarrow> (string + nat \<times> nat) \<times> 'w"
  drv_get :: "handle \<Rightarrow> string \<Rightarrow> jsval list \<Rightarrow> 'w \<Rightarrow> (string + row option) \<times> 'w"
  drv_all :: "handle \<Rightarrow> string \<Rightarrow> jsval list \<Rightarrow> 'w \<Rightarrow> (string + row list) \<times> 'w"

type_synonym ('a, 'w) prog = "'w state \<Rightarrow> (error + 'a) \<times> 'w state"

subsection \<open>Sequencing, \<open>throw\<close>, \<open>try\<close>/\<open>catch\<close>/\<open>finally\<close>\<close>

definition return :: "'a \<Rightarrow> ('a, 'w) prog" where
  "return x = (\<lambda>s. (Inr x, s))"

definition throw :: "error \<Rightarrow> ('a, 'w) prog" where
  "throw e = (\<lambda>s. (Inl e, s))"

definition bind :: "('a, 'w) prog \<Rightarrow> ('a \<Rightarrow> ('b, 'w) prog) \<Rightarrow> ('b, 'w) prog" where
  "bind m f = (\<lambda>s. case m s of (Inl e, s') \<Rightarrow> (Inl e, s') | (Inr x, s') \<Rightarrow> f x s')"

definition try_catch :: "('a, 'w) prog \<Rightarrow> (error \<Rightarrow> ('a, 'w) prog) \<Rightarrow> ('a, 'w) prog" where
  "try_catch body handler =
     (\<lambda>s. case body s of (Inl e, s') \<Rightarrow> handler e s' | (Inr x, s') \<Rightarrow> (Inr x, s'))"

text \<open>
  \<open>finally\<close> always runs; when it throws, its error replaces the completion of the
  body, otherwise the body's completion (value or error) stands.
\<close>

definition try_finally :: "('a, 'w) prog \<Rightarrow> (unit, 'w) prog \<Rightarrow> ('a, 'w) prog" where
  "try_finally body fin =
     (\<lambda>s. case body s of (r, s') \<Rightarrow>
            (case fin s' of (Inl e, s'') \<Rightarrow> (Inl e, s'') | (Inr _, s'') \<Rightarrow> (r, s'')))"

definition console_log :: "string \<Rightarrow> (unit, 'w) prog" where
  "console_log line = (\<lambda>s. (Inr (), s\<lparr>console := console s @ [line]\<rparr>))"

subsection \<open>The lifecycle: \<open>createConnection\<close>, \<open>beginSession\<close>, \<open>endSession\<close>, \<open>session\<close>\<close>

text \<open>
  \<open>this.db = await open({...})\<close>: the assignment happens only when \<open>open\<close> resolves, and
  it happens whatever \<open>this.db\<close> held before.
\<close>

definition createConnection :: "'w driver \<Rightarrow> (unit, 'w) prog" where
  "createConnection D =
     (\<lambda>s. case drv_open D (engine s) of
        (Inl msg, w) \<Rightarrow> (Inl (DriverError msg), s\<lparr>engine := w\<rparr>)
      | (Inr _, w) \<Rightarrow>
          (Inr (), s\<lparr>db := Some (next_handle s),
                      live := next_handle s # live s,
                      next_handle := Suc (next_handle s),
                      engine := w\<rparr>))"

definition beginSession :: "'w driver \<Rightarrow> (unit, 'w) prog" where
  "beginSession D = createConnection D"

text \<open>
  \<open>await this.db?.close(); this.db = null;\<close>: no driver call when the field is null;
  when \<open>close\<close> rejects, the assignment is not reached.
\<close>

definition endSession :: "'w driver \<Rightarrow> (unit, 'w) prog" where
  "endSession D =
     (\<lambda>s. case db s of
        None \<Rightarrow> (Inr (), s\<lparr>db := None\<rparr>)
      | Some h \<Rightarrow>
          (case drv_close D h (engine s) of
             (Inl msg, w) \<Rightarrow> (Inl (DriverError msg), s\<lparr>engine := w\<rparr>)
           | (Inr _, w) \<Rightarrow> (Inr (), s\<lparr>db := None, live := remove1 h (live s), engine := w\<rparr>)))"

text \<open>
  \<open>await this.beginSession(); await block(); await this.endSession();\<close>. The block is any
  program over the same state: what it does up to the settlement of the promise it
  returns, or its synchronous throw. Work that a block starts and does not await has no
  place in this sequential reading.
\<close>

definition session :: "'w driver \<Rightarrow> (unit, 'w) prog \<Rightarrow> (unit, 'w) prog" where
  "session D block = bind (beginSession D) (\<lambda>_. bind block (\<lambda>_. endSession D))"

subsection \<open>Statements: \<open>exec\<close>, \<open>run\<close>, \<open>get\<close>, \<open>all\<close>\<close>

text \<open>The driver's methods, called on the connection \<open>h\<close>; a rejection becomes a throw.\<close>

definition call_exec :: "'w driver \<Rightarrow> handle \<Rightarrow> string \<Rightarrow> (unit, 'w) prog" where
  "call_exec D h sql =
     (\<lambda>s. case drv_exec D h sql (engine s) of
        (Inl msg, w) \<Rightarrow> (Inl (DriverError msg), s\<lparr>engine := w\<rparr>)
      | (Inr _, w) \<Rightarrow> (Inr (), s\<lparr>engine := w\<rparr>))"

definition call_run :: "'w driver \<Rightarrow> handle \<Rightarrow> string \<Rightarrow> jsval list \<Rightarrow> (result, 'w) prog" where
  "call_run D h sql args =
     (\<lambda>s. case drv_run D h sql args (engine s) of
        (Inl msg, w) \<Rightarrow> (Inl (DriverError msg), s\<lparr>engine := w\<rparr>)
      | (Inr (lastID, changes), w) \<Rightarrow> (Inr (RunResult lastID changes), s\<lparr>engine := w\<rparr>))"

definition call_get :: "'w driver \<Rightarrow> handle \<Rightarrow> string \<Rightarrow> jsval list \<Rightarrow> (result, 'w) prog" where
  "call_get D h sql args =
     (\<lambda>s. case drv_get D h sql args (engine s) of
        (Inl msg, w) \<Rightarrow> (Inl (DriverError msg), s\<lparr>engine := w\<rparr>)
      | (Inr None, w) \<Rightarrow> (Inr Undefined, s\<lparr>engine := w\<rparr>)
      | (Inr (Some r), w) \<Rightarrow> (Inr (Row r), s\<lparr>engine := w\<rparr>))"

definition call_all :: "'w driver \<Rightarrow> handle \<Rightarrow> string \<Rightarrow> jsval list \<Rightarrow> (result, 'w) prog" where
  "call_all D h sql args =
     (\<lambda>s. case drv_all D h sql args (engine s) of
        (Inl msg, w) \<Rightarrow> (Inl (DriverError msg), s\<lparr>engine := w\<rparr>)
      | (Inr rs, w) \<Rightarrow> (Inr (Rows rs), s\<lparr>engine := w\<rparr>))"

text \<open>\<open>if (!this.db) throw 'DATABASE ERROR';\<close> followed by a use of \<open>this.db\<close>.\<close>

definition require_db :: "(handle \<Rightarrow> ('a, 'w) prog) \<Rightarrow> ('a, 'w) prog" where
  "require_db f = (\<lambda>s. case db s of None \<Rightarrow> throw DATABASE_ERROR s | Some h \<Rightarrow> f h s)"

text \<open>The \<open>catch\<close> block shared by the four methods: log the statement, throw again.\<close>

definition log_and_rethrow :: "string \<Rightarrow> error \<Rightarrow> ('a, 'w) prog" where
  "log_and_rethrow sql err =
     bind (console_log (''DATABASE ERROR FOR QUERY:'' @ [CHR 0x0A] @ sql)) (\<lambda>_. throw err)"

definition exec :: "'w driver \<Rightarrow> string \<Rightarrow> (unit, 'w) prog" where
  "exec D sql =
     (\<lambda>s. let isInTransaction = (db s \<noteq> None) in
        try_finally
          (try_catch
             (bind (if \<not> isInTransaction then createConnection D else return ())
                (\<lambda>_ s1. case db s1 of None \<Rightarrow> return () s1 | Some h \<Rightarrow> call_exec D h sql s1))
             (log_and_rethrow sql))
          (if \<not> isInTransaction then endSession D else return ())
          s)"

definition run :: "'w driver \<Rightarrow> string \<Rightarrow> jsval list \<Rightarrow> (result, 'w) prog" where
  "run D sql args =
     (\<lambda>s. let isInTransaction = (db s \<noteq> None) in
        try_finally
          (try_catch
             (bind (if \<not> isInTransaction then createConnection D else return ())
                (\<lambda>_. require_db (\<lambda>h. call_run D h sql args)))
             (log_and_rethrow sql))
          (if \<not> isInTransaction then endSession D else return ())
          s)"

definition get :: "'w driver \<Rightarrow> string \<Rightarrow> jsval list \<Rightarrow> (result, 'w) prog" where
  "get D sql args =
     (\<lambda>s. let isInTransaction = (db s \<noteq> None) in
        try_finally
          (try_catch
             (bind (if \<not> isInTransaction then createConnection D else return ())
                (\<lambda>_. require_db (\<lambda>h. call_get D h sql args)))
             (log_and_rethrow sql))
          (if \<not> isInTransaction then endSession D else return ())
          s)"

definition all :: "'w driver \<Rightarrow> string \<Rightarrow> jsval list \<Rightarrow> (result, 'w) prog" where
  "all D sql args =
     (\<lambda>s. let isInTransaction = (db s \<noteq> None) in
        try_finally
          (try_catch
             (bind (if \<not> isInTransaction then createConnection D else return ())
                (\<lambda>_. require_db (\<lambda>h. call_all D h sql args)))
             (log_and_rethrow sql))
          (if \<not> isInTransaction then endSession D else return ())
          s)"

text \<open>
  \<open>db.ts\<close> holds a second copy of the class (from line 304), without \<open>createTable\<close> and
  \<open>insert\<close>. Its \<open>beginSession\<close>, \<open>endSession\<close>, \<open>session\<close>, \<open>exec\<close>, \<open>run\<close> and \<open>all\<close> are
  the same text as above; its \<open>get\<close> (lines 366 to 382) calls \<open>this.db.run\<close>.
\<close>

definition get_2 :: "'w driver \<Rightarrow> string \<Rightarrow> jsval list \<Rightarrow> (result, 'w) prog" where
  "get_2 D sql args =
     (\<lambda>s. let isInTransaction = (db s \<noteq> None) in
        try_finally
          (try_catch
             (bind (if \<not> isInTransaction then createConnection D else return ())
                (\<lambda>_. require_db (\<lambda>h. call_run D h sql args)))
             (log_and_rethrow sql))
          (if \<not> isInTransaction then endSession D else return ())
          s)"

subsection \<open>The schema translator: \<open>createTable\<close>\<close>

datatype ColumnType = INTEGER | TEXT | REAL

fun ColumnType_value :: "ColumnType \<Rightarrow> string" where
  "ColumnType_value INTEGER = ''INTEGER''"
| "ColumnType_value TEXT = ''TEXT''"
| "ColumnType_value REAL = ''REAL''"

record Column =
  isPrimaryKey :: bool
  name :: string
  type :: ColumnType
  allowNull :: bool

record TableDefinition =
  name :: string
  columns :: "Column list"

text \<open>\<open>TableDefinition.column\<close>, with its defaults \<open>allowNull = true\<close>, \<open>isPrimaryKey = false\<close>.\<close>

definition column :: "string \<Rightarrow> ColumnType \<Rightarrow> bool \<Rightarrow> bool \<Rightarrow> Column" where
  "column n t an pk = \<lparr>isPrimaryKey = pk, Column.name = n, type = t, allowNull = an\<rparr>"

definition column_default :: "string \<Rightarrow> ColumnType \<Rightarrow> Column" where
  "column_default n t = column n t True False"

text \<open>\<open>Array.prototype.join\<close> on strings.\<close>

fun join :: "string \<Rightarrow> string list \<Rightarrow> string" where
  "join sep [] = []"
| "join sep [x] = x"
| "join sep (x # y # ys) = x @ sep @ join sep (y # ys)"

definition makeColumnSqlEntry :: "Column \<Rightarrow> string" where
  "makeColumnSqlEntry c =
     (Column.name c @ '' '' @ ColumnType_value (type c))
     @ (if isPrimaryKey c then '' PRIMARY KEY'' else [])
     @ (if allowNull c then [] else '' NOT NULL'')"

text \<open>The three assignments to \<open>sql\<close> in \<open>createTable\<close>.\<close>

definition createTable_sql :: "TableDefinition \<Rightarrow> bool \<Rightarrow> string" where
  "createTable_sql table allowPreexisting =
     (let sql = ''CREATE TABLE '' @ (if allowPreexisting then ''IF NOT EXISTS '' else [])
                  @ TableDefinition.name table @ '' ('';
          sql = sql @ join '','' (map (\<lambda>c. makeColumnSqlEntry c) (columns table));
          sql = sql @ '');''
      in sql)"

definition createTable :: "'w driver \<Rightarrow> TableDefinition \<Rightarrow> bool \<Rightarrow> (unit, 'w) prog" where
  "createTable D table allowPreexisting = exec D (createTable_sql table allowPreexisting)"

subsection \<open>\<open>insert\<close>\<close>

text \<open>
  An \<open>Entity\<close> is an object with the string field \<open>tableName\<close> and any further own
  properties; \<open>props\<close> lists those with their values in enumeration order. Where
  \<open>tableName\<close> stands among the keys does not matter: \<open>insert\<close> filters it out. The
  method \<open>insert\<close> is \<open>insert_entity\<close> below, its local constants \<open>keys\<close> and \<open>sql\<close> are
  \<open>insert_keys\<close> and \<open>insert_sql\<close>.
\<close>

record Entity =
  tableName :: string
  props :: "(string \<times> jsval) list"

definition Object_keys :: "Entity \<Rightarrow> string list" where
  "Object_keys entity = ''tableName'' # map fst (props entity)"

text \<open>\<open>{ ...entity }\<close> and the lookup \<open>keyValueMap[key]\<close>, \<open>undefined\<close> for a missing key.\<close>

definition keyValueMap :: "Entity \<Rightarrow> string \<Rightarrow> jsval" where
  "keyValueMap entity key =
     (case map_of ((''tableName'', JStr (tableName entity)) # props entity) key of
        None \<Rightarrow> JUndefined
      | Some v \<Rightarrow> v)"

definition insert_keys :: "Entity \<Rightarrow> string list" where
  "insert_keys entity = filter (\<lambda>key. key \<noteq> ''tableName'') (Object_keys entity)"

definition sqlArgumentMap :: "Entity \<Rightarrow> jsval list" where
  "sqlArgumentMap entity = map (\<lambda>key. keyValueMap entity key) (insert_keys entity)"

definition insert_sql :: "Entity \<Rightarrow> string" where
  "insert_sql entity =
     (let keys = insert_keys entity;
          qMarks = join '','' (map (\<lambda>_. ''?'') keys)
      in ''INSERT INTO '' @ tableName entity @ '' ( '' @ join '','' keys
           @ '' ) VALUES ('' @ qMarks @ '')'')"

definition insert_entity :: "'w driver \<Rightarrow> Entity \<Rightarrow> (unit, 'w) prog" where
  "insert_entity D entity =
     bind (run D (insert_sql entity) (sqlArgumentMap entity)) (\<lambda>_. return ())"

subsection \<open>Sequences of calls on one instance\<close>

text \<open>
  A caller's calls on one \<open>ForzenSqliteDb\<close>, each awaited before the next one.
  \<open>Session cs\<close> is \<open>session\<close> on a block that awaits the calls \<open>cs\<close> in turn and lets the
  first rejection escape.
\<close>

datatype call =
    BeginSession
  | EndSession
  | Session "call list"
  | Exec string
  | Run string "jsval list"
  | Get string "jsval list"
  | All string "jsval list"
  | CreateTable TableDefinition bool
  | Insert Entity

fun perform :: "'w driver \<Rightarrow> call \<Rightarrow> (unit, 'w) prog"
  and perform_block :: "'w driver \<Rightarrow> call list \<Rightarrow> (unit, 'w) prog" where
  "perform D BeginSession = beginSession D"
| "perform D EndSession = endSession D"
| "perform D (Session cs) = session D (perform_block D cs)"
| "perform D (Exec sql) = exec D sql"
| "perform D (Run sql args) = bind (run D sql args) (\<lambda>_. return ())"
| "perform D (Get sql args) = bind (get D sql args) (\<lambda>_. return ())"
| "perform D (All sql args) = bind (all D sql args) (\<lambda>_. return ())"
| "perform D (CreateTable table allowPreexisting) = createTable D table allowPreexisting"
| "perform D (Insert entity) = insert_entity D entity"
| "perform_block D [] = return ()"
| "perform_block D (c # cs) = bind (perform D c) (\<lambda>_. perform_block D cs)"

text \<open>
  At the top level the caller may catch a rejection and go on, so \<open>perform_all\<close> makes
  every call of the list.
\<close>

fun perform_all :: "'w driver \<Rightarrow> call list \<Rightarrow> 'w state \<Rightarrow> 'w state" where
  "perform_all D [] s = s"
| "perform_all D (c # cs) s = perform_all D cs (snd (perform D c s))"

text \<open>
  The protocol of the interface comments (``Call endSession once done to finish''): a
  session is begun, by \<open>beginSession\<close> or by \<open>session\<close>, only while the field is null. Inside
  a block the calls after a rejected one are not made.
\<close>

fun keeps_protocol :: "'w driver \<Rightarrow> call \<Rightarrow> 'w state \<Rightarrow> bool"
  and block_keeps_protocol :: "'w driver \<Rightarrow> call list \<Rightarrow> 'w state \<Rightarrow> bool" where
  "keeps_protocol D BeginSession s = (db s = None)"
| "keeps_protocol D (Session cs) s =
     (db s = None \<and>
      (case beginSession D s of (Inl _, _) \<Rightarrow> True | (Inr _, s1) \<Rightarrow> block_keeps_protocol D cs s1))"
| "keeps_protocol D EndSession s = True"
| "keeps_protocol D (Exec sql) s = True"
| "keeps_protocol D (Run sql args) s = True"
| "keeps_protocol D (Get sql args) s = True"
| "keeps_protocol D (All sql args) s = True"
| "keeps_protocol D (CreateTable table allowPreexisting) s = True"
| "keeps_protocol D (Insert entity) s = True"
| "block_keeps_protocol D [] s = True"
| "block_keeps_protocol D (c # cs) s =
     (keeps_protocol D c s \<and>
      (case perform D c s of (Inl _, _) \<Rightarrow> True | (Inr _, s') \<Rightarrow> block_keeps_protocol D cs s'))"

fun begins_when_closed :: "'w driver \<Rightarrow> call list \<Rightarrow> 'w state \<Rightarrow> bool" where
  "begins_when_closed D [] s = True"
| "begins_when_closed D (c # cs) s =
     (keeps_protocol D c s \<and> begins_when_closed D cs (snd (perform D c s)))"

text \<open>The field holds the only live connection, or is null and none is live.\<close>

definition one_handle :: "'w state \<Rightarrow> bool" where
  "one_handle s = (live s = (case db s of None \<Rightarrow> [] | Some h \<Rightarrow> [h]))"

text \<open>A driver whose \<open>close\<close> never rejects.\<close>

definition close_succeeds :: "'w driver \<Rightarrow> bool" where
  "close_succeeds D = (\<forall>h w. fst (drv_close D h w) = Inr ())"

subsection \<open>Calls that overlap\<close>

text \<open>
  A caller may make a second call before the promise of the first has settled. An
  \<open>async\<close> method then runs from one \<open>await\<close> to the next, and between two such turns
  another call may take its own turn on the same field. For \<open>run\<close>, \<open>get\<close> and \<open>all\<close>
  (lines 174 to 228, the same text up to the driver method) the turns are written out:
  \<open>pc\<close> names the \<open>await\<close> at which a call is suspended, with the values it holds there.
\<close>

datatype query_method = M_run | M_get | M_all

fun call_method :: "'w driver \<Rightarrow> query_method \<Rightarrow> handle \<Rightarrow> string \<Rightarrow> jsval list \<Rightarrow> (result, 'w) prog" where
  "call_method D M_run h q a = call_run D h q a"
| "call_method D M_get h q a = call_get D h q a"
| "call_method D M_all h q a = call_all D h q a"

text \<open>The method as embedded above, for a call that nothing interrupts.\<close>

fun invoke :: "'w driver \<Rightarrow> query_method \<Rightarrow> string \<Rightarrow> jsval list \<Rightarrow> (result, 'w) prog" where
  "invoke D M_run q a = run D q a"
| "invoke D M_get q a = get D q a"
| "invoke D M_all q a = all D q a"

text \<open>
  \<^item> \<open>Called\<close>: the call is made and has not run yet.
  \<^item> \<open>Await_open\<close>: inside \<open>createConnection\<close>, at \<open>await open(...)\<close>.
  \<^item> \<open>Await_createConnection r\<close>: at \<open>await this.createConnection()\<close>, the promise of
    \<open>createConnection\<close> settled with \<open>r\<close>.
  \<^item> \<open>Await_statement h\<close>: at \<open>await this.db.run(sql, args)\<close> (or \<open>get\<close>, \<open>all\<close>), called on
    the connection \<open>h\<close> read from the field.
  \<^item> \<open>Await_close ho out\<close>: in the \<open>finally\<close> block, inside \<open>endSession\<close>, at
    \<open>await this.db?.close()\<close>; \<open>ho\<close> is what the field held when \<open>close\<close> was called, \<open>out\<close> the
    completion of the \<open>try\<close> and \<open>catch\<close> blocks.
  \<^item> \<open>Await_endSession r out\<close>: at \<open>await this.endSession()\<close>, settled with \<open>r\<close>.
  \<^item> \<open>Settled out\<close>: the promise of the call settled with \<open>out\<close>.
\<close>

datatype pc =
    Called
  | Await_open
  | Await_createConnection "error + unit"
  | Await_statement handle
  | Await_close "handle option" "error + result"
  | Await_endSession "error + unit" "error + result"
  | Settled "error + result"

record task =
  called_method :: query_method
  called_sql :: string
  called_args :: "jsval list"
  pc :: pc
  isInTransaction :: bool

definition made :: "query_method \<Rightarrow> string \<Rightarrow> jsval list \<Rightarrow> task" where
  "made m q a =
     \<lparr>called_method = m, called_sql = q, called_args = a, pc = Called, isInTransaction = False\<rparr>"

text \<open>The \<open>finally\<close> block, up to its \<open>await\<close>: \<open>endSession\<close> calls \<open>close\<close> on what the field holds.\<close>

definition enter_finally :: "task \<Rightarrow> error + result \<Rightarrow> 'w state \<Rightarrow> task \<times> 'w state" where
  "enter_finally t out s =
     (if \<not> isInTransaction t then (t\<lparr>pc := Await_close (db s) out\<rparr>, s)
      else (t\<lparr>pc := Settled out\<rparr>, s))"

text \<open>The \<open>catch\<close> block, then the \<open>finally\<close> block.\<close>

definition caught :: "task \<Rightarrow> error \<Rightarrow> 'w state \<Rightarrow> task \<times> 'w state" where
  "caught t err s =
     enter_finally t (Inl err)
       (s\<lparr>console := console s @ [''DATABASE ERROR FOR QUERY:'' @ [CHR 0x0A] @ called_sql t]\<rparr>)"

text \<open>\<open>if (!this.db) throw 'DATABASE ERROR';\<close> and the call of the driver method.\<close>

definition check_and_call :: "task \<Rightarrow> 'w state \<Rightarrow> task \<times> 'w state" where
  "check_and_call t s =
     (case db s of None \<Rightarrow> caught t DATABASE_ERROR s | Some h \<Rightarrow> (t\<lparr>pc := Await_statement h\<rparr>, s))"

text \<open>
  One turn of a call: from where it is suspended to its next \<open>await\<close>. A driver call
  takes effect when the call that awaits it is resumed. \<open>createConnection\<close> has one
  \<open>await\<close>, so its turn after \<open>open\<close> is \<open>createConnection\<close> as embedded above.
\<close>

fun resume :: "'w driver \<Rightarrow> task \<Rightarrow> pc \<Rightarrow> 'w state \<Rightarrow> task \<times> 'w state" where
  "resume D t Called s =
     (let t = t\<lparr>isInTransaction := (db s \<noteq> None)\<rparr> in
      if \<not> isInTransaction t then (t\<lparr>pc := Await_open\<rparr>, s) else check_and_call t s)"
| "resume D t Await_open s =
     (case createConnection D s of (r, s') \<Rightarrow> (t\<lparr>pc := Await_createConnection r\<rparr>, s'))"
| "resume D t (Await_createConnection (Inl err)) s = caught t err s"
| "resume D t (Await_createConnection (Inr _)) s = check_and_call t s"
| "resume D t (Await_statement h) s =
     (case call_method D (called_method t) h (called_sql t) (called_args t) s of
        (Inl err, s') \<Rightarrow> caught t err s'
      | (Inr v, s') \<Rightarrow> enter_finally t (Inr v) s')"
| "resume D t (Await_close None out) s =
     (t\<lparr>pc := Await_endSession (Inr ()) out\<rparr>, s\<lparr>db := None\<rparr>)"
| "resume D t (Await_close (Some h) out) s =
     (case drv_close D h (engine s) of
        (Inl msg, w) \<Rightarrow> (t\<lparr>pc := Await_endSession (Inl (DriverError msg)) out\<rparr>, s\<lparr>engine := w\<rparr>)
      | (Inr _, w) \<Rightarrow>
          (t\<lparr>pc := Await_endSession (Inr ()) out\<rparr>,
           s\<lparr>db := None, live := remove1 h (live s), engine := w\<rparr>))"
| "resume D t (Await_endSession (Inl err) out) s = (t\<lparr>pc := Settled (Inl err)\<rparr>, s)"
| "resume D t (Await_endSession (Inr _) out) s = (t\<lparr>pc := Settled out\<rparr>, s)"
| "resume D t (Settled out) s = (t, s)"

definition step :: "'w driver \<Rightarrow> task \<Rightarrow> 'w state \<Rightarrow> task \<times> 'w state" where
  "step D t s = resume D t (pc t) s"

text \<open>A call that takes \<open>n\<close> turns with no other call in between.\<close>

fun steps :: "'w driver \<Rightarrow> nat \<Rightarrow> task \<Rightarrow> 'w state \<Rightarrow> task \<times> 'w state" where
  "steps D 0 t s = (t, s)"
| "steps D (Suc n) t s = (case step D t s of (t', s') \<Rightarrow> steps D n t' s')"





subsection \<open>The statements as the specification words them\<close>

text \<open>
  \<open>CREATE TABLE [IF NOT EXISTS] <name> (<col> <TYPE> [PRIMARY KEY] [NOT NULL], ...);\<close>:
  a column entry is its words separated by single blanks, the entries follow each other
  in the order of the descriptor, separated by commas.
\<close>

fun spec_words :: "string list \<Rightarrow> string" where
  "spec_words [] = []"
| "spec_words [w] = w"
| "spec_words (w # ws) = w @ '' '' @ spec_words ws"

definition spec_column_entry :: "Column \<Rightarrow> string" where
  "spec_column_entry c =
     spec_words ([Column.name c, ColumnType_value (type c)]
                 @ (if isPrimaryKey c then [''PRIMARY KEY''] else [])
                 @ (if \<not> allowNull c then [''NOT NULL''] else []))"

fun spec_column_entries :: "Column list \<Rightarrow> string" where
  "spec_column_entries [] = []"
| "spec_column_entries [c] = spec_column_entry c"
| "spec_column_entries (c # cs) = spec_column_entry c @ '','' @ spec_column_entries cs"

definition spec_create_table :: "TableDefinition \<Rightarrow> bool \<Rightarrow> string" where
  "spec_create_table table allowPreexisting =
     ''CREATE TABLE '' @ (if allowPreexisting then ''IF NOT EXISTS '' else [])
     @ TableDefinition.name table @ '' ('' @ spec_column_entries (columns table) @ '');''"

text \<open>
  The parameterized \<open>INSERT\<close>: the columns are the fields other than \<open>tableName\<close>, the
  value list is one \<open>?\<close> for each of them.
\<close>

definition spec_insert_columns :: "Entity \<Rightarrow> string list" where
  "spec_insert_columns entity = [k \<leftarrow> map fst (props entity). k \<noteq> ''tableName'']"

fun spec_placeholders :: "nat \<Rightarrow> string" where
  "spec_placeholders 0 = []"
| "spec_placeholders (Suc 0) = ''?''"
| "spec_placeholders (Suc n) = ''?,'' @ spec_placeholders n"

definition spec_insert :: "Entity \<Rightarrow> string" where
  "spec_insert entity =
     ''INSERT INTO '' @ tableName entity @ '' ( '' @ join '','' (spec_insert_columns entity)
     @ '' ) VALUES ('' @ spec_placeholders (length (spec_insert_columns entity)) @ '')''"

subsection \<open>Drivers and objects for the examples\<close>

text \<open>The engine of the examples is the list of the statements it was given.\<close>

type_synonym stmt_log = "(string \<times> jsval list) list"

definition ok_driver :: "stmt_log driver" where
  "ok_driver =
     \<lparr>drv_open = (\<lambda>w. (Inr (), w)),
      drv_close = (\<lambda>h w. (Inr (), w)),
      drv_exec = (\<lambda>h sql w. (Inr (), w @ [(sql, [])])),
      drv_run = (\<lambda>h sql args w. (Inr (length w, 1), w @ [(sql, args)])),
      drv_get = (\<lambda>h sql args w. (Inr None, w @ [(sql, args)])),
      drv_all = (\<lambda>h sql args w. (Inr [], w @ [(sql, args)]))\<rparr>"

text \<open>Every statement is rejected; \<open>open\<close> and \<open>close\<close> work.\<close>

definition rejecting_driver :: "stmt_log driver" where
  "rejecting_driver =
     \<lparr>drv_open = (\<lambda>w. (Inr (), w)),
      drv_close = (\<lambda>h w. (Inr (), w)),
      drv_exec = (\<lambda>h sql w. (Inl ''SQLITE_ERROR'', w)),
      drv_run = (\<lambda>h sql args w. (Inl ''SQLITE_ERROR'', w)),
      drv_get = (\<lambda>h sql args w. (Inl ''SQLITE_ERROR'', w)),
      drv_all = (\<lambda>h sql args w. (Inl ''SQLITE_ERROR'', w))\<rparr>"

text \<open>
  A database whose queries match no row: \<open>get\<close> answers \<open>undefined\<close>, \<open>all\<close> answers the
  empty array, \<open>run\<close> answers the metadata of a statement that changed nothing.
\<close>

definition no_rows_driver :: "stmt_log driver" where
  "no_rows_driver =
     \<lparr>drv_open = (\<lambda>w. (Inr (), w)),
      drv_close = (\<lambda>h w. (Inr (), w)),
      drv_exec = (\<lambda>h sql w. (Inr (), w @ [(sql, [])])),
      drv_run = (\<lambda>h sql args w. (Inr (0, 0), w @ [(sql, args)])),
      drv_get = (\<lambda>h sql args w. (Inr None, w @ [(sql, args)])),
      drv_all = (\<lambda>h sql args w. (Inr [], w @ [(sql, args)]))\<rparr>"

text \<open>\<open>close\<close> is rejected; everything else works.\<close>

definition busy_driver :: "stmt_log driver" where
  "busy_driver = ok_driver\<lparr>drv_close := (\<lambda>h w. (Inl ''SQLITE_BUSY'', w))\<rparr>"

text \<open>\<open>new ForzenSqliteDb()\<close> on an engine that was given nothing yet.\<close>

definition fresh :: "stmt_log state" where
  "fresh = \<lparr>db = None, live = [], next_handle = 0, console = [], engine = []\<rparr>"

text \<open>The state after a first \<open>beginSession\<close> on \<open>fresh\<close>.\<close>

definition in_session :: "stmt_log state" where
  "in_session = \<lparr>db = Some 0, live = [0], next_handle = 1, console = [], engine = []\<rparr>"

text \<open>The table and the entity of the demonstration script.\<close>

definition my_table_2 :: TableDefinition where
  "my_table_2 =
     \<lparr>TableDefinition.name = ''my_table_2'',
      columns = [column_default ''foo'' INTEGER, column_default ''bar'' TEXT]\<rparr>"

definition keyed_table :: TableDefinition where
  "keyed_table =
     \<lparr>TableDefinition.name = ''t'',
      columns = [column ''id'' INTEGER False True, column ''w'' REAL True False]\<rparr>"

definition testObj :: Entity where
  "testObj = \<lparr>tableName = ''my_table_2'', props = [(''foo'', JNum 1337), (''bar'', JStr ''potato'')]\<rparr>"

definition quoteObj :: Entity where
  "quoteObj = \<lparr>tableName = ''my_table_2'', props = [(''foo'', JNum 0), (''bar'', JStr ''x'); DROP TABLE t;--'')]\<rparr>"

text \<open>
  Two callers that keep to the protocol, with statements outside and inside sessions.
  The second one calls \<open>endSession\<close> itself after a session whose block may have thrown.
\<close>

definition demo_calls :: "call list" where
  "demo_calls =
     [Exec ''SELEC'',
      Session [CreateTable my_table_2 True, Insert testObj, Get ''SELECT * FROM my_table_2'' []],
      BeginSession, All ''SELECT 1'' [], EndSession, EndSession,
      Run ''DELETE FROM my_table_2'' [], Session [], BeginSession]"

definition careful_calls :: "call list" where
  "careful_calls = [Exec ''SELEC'', Session [Exec ''SELEC'', Exec ''SELECT 1''], EndSession, BeginSession]"

text \<open>
  A driver that rejects a number of \<open>close\<close> calls before it accepts one: its engine is
  the number of rejections still to come. \<open>busy_once\<close> is an instance in a session on it,
  with one rejection to come.
\<close>

definition flaky_driver :: "nat driver" where
  "flaky_driver =
     \<lparr>drv_open = (\<lambda>n. (Inr (), n)),
      drv_close = (\<lambda>h n. if 0 < n then (Inl ''SQLITE_BUSY'', n - 1) else (Inr (), n)),
      drv_exec = (\<lambda>h q n. (Inr (), n)),
      drv_run = (\<lambda>h q a n. (Inr (0, 0), n)),
      drv_get = (\<lambda>h q a n. (Inr None, n)),
      drv_all = (\<lambda>h q a n. (Inr [], n))\<rparr>"

definition busy_once :: "nat state" where
  "busy_once = \<lparr>db = Some 0, live = [0], next_handle = 1, console = [], engine = 1\<rparr>"




section \<open>Properties\<close>

subsection \<open>Unfolding the programs\<close>

lemmas prog_defs = return_def throw_def bind_def try_catch_def try_finally_def console_log_def
  log_and_rethrow_def require_db_def

lemmas call_defs = call_exec_def call_run_def call_get_def call_all_def

lemmas example_defs = ok_driver_def rejecting_driver_def no_rows_driver_def busy_driver_def
  fresh_def in_session_def

lemmas step_defs = step_def enter_finally_def caught_def check_and_call_def

lemma close_succeedsD: "close_succeeds D \<Longrightarrow> drv_close D h w = (Inl e, w') \<Longrightarrow> False"
  by (auto simp: close_succeeds_def dest!: spec[of _ h] spec[of _ w])

subsection \<open>\<open>endSession\<close>\<close>

lemma endSession_closed: "db s = None \<Longrightarrow> endSession D s = (Inr (), s)"
  by (simp add: endSession_def)

lemma endSession_returns:
  assumes "fst (endSession D s) = Inr ()"
  shows "db (snd (endSession D s)) = None"
    and "live (snd (endSession D s)) = (case db s of None \<Rightarrow> live s | Some h \<Rightarrow> remove1 h (live s))"
  using assms by (auto simp: endSession_def split: option.splits prod.splits sum.splits)

lemma endSession_total: "close_succeeds D \<Longrightarrow> fst (endSession D s) = Inr ()"
  by (auto simp: endSession_def split: option.splits prod.splits sum.splits dest: close_succeedsD)

lemma endSession_close_resolved:
  "db s = Some h \<Longrightarrow> fst (drv_close D h (engine s)) = Inr () \<Longrightarrow> fst (endSession D s) = Inr ()"
  by (auto simp: endSession_def split: prod.splits sum.splits)

lemma endSession_close_rejected:
  "db s = Some h \<Longrightarrow> drv_close D h (engine s) = (Inl msg, w) \<Longrightarrow>
   endSession D s = (Inl (DriverError msg), s\<lparr>engine := w\<rparr>)"
  by (simp add: endSession_def)

text \<open>
  C7, as stated, at a driver that rejects \<open>close\<close>: \<open>endSession\<close> throws the rejection on and
  the handle stays set, the connection live. And at a driver that rejects \<open>close\<close> once:
  after one \<open>endSession\<close> the handle is set, after a second one it is absent, so two calls
  do not leave the state of one.
\<close>

theorem endSession_rejected_close_keeps_handle:
  "db in_session = Some 0
   \<and> fst (endSession busy_driver in_session) = Inl (DriverError ''SQLITE_BUSY'')
   \<and> db (snd (endSession busy_driver in_session)) = Some 0
   \<and> live (snd (endSession busy_driver in_session)) = [0]
   \<and> db (snd (endSession flaky_driver busy_once)) = Some 0
   \<and> db (snd (endSession flaky_driver (snd (endSession flaky_driver busy_once)))) = None"
  by (simp add: endSession_def example_defs flaky_driver_def busy_once_def)

text \<open>
  C7, amended. \<open>endSession\<close> on a closed instance returns and changes nothing. With a
  connection open it calls the driver's \<open>close\<close> on it: when \<open>close\<close> is not rejected,
  \<open>endSession\<close> returns; when \<open>close\<close> is rejected, \<open>endSession\<close> throws the rejection on and
  leaves the handle and the live connections as they were. Whenever \<open>endSession\<close>
  returns, the field is null, the connection the field held has been taken from the
  live ones (so, the live ones being distinct, it is no longer live), and one more
  \<open>endSession\<close> returns and leaves the state of the first.
\<close>

theorem endSession_idempotent:
  "(db s = None \<longrightarrow> endSession D s = (Inr (), s))
   \<and> (\<forall>h. db s = Some h \<and> fst (drv_close D h (engine s)) = Inr () \<longrightarrow> fst (endSession D s) = Inr ())
   \<and> (\<forall>h msg w. db s = Some h \<and> drv_close D h (engine s) = (Inl msg, w) \<longrightarrow>
         endSession D s = (Inl (DriverError msg), s\<lparr>engine := w\<rparr>))
   \<and> (fst (endSession D s) = Inr () \<longrightarrow>
        db (snd (endSession D s)) = None
        \<and> live (snd (endSession D s)) = (case db s of None \<Rightarrow> live s | Some h \<Rightarrow> remove1 h (live s))
        \<and> (\<forall>h. db s = Some h \<and> distinct (live s) \<longrightarrow> h \<notin> set (live (snd (endSession D s))))
        \<and> endSession D (snd (endSession D s)) = (Inr (), snd (endSession D s)))"
proof (intro conjI impI allI)
  show "endSession D s = (Inr (), s)" if "db s = None"
    using that by (rule endSession_closed)
  show "fst (endSession D s) = Inr ()" if "db s = Some h \<and> fst (drv_close D h (engine s)) = Inr ()" for h
    using that by (simp add: endSession_close_resolved)
  show "endSession D s = (Inl (DriverError msg), s\<lparr>engine := w\<rparr>)"
    if "db s = Some h \<and> drv_close D h (engine s) = (Inl msg, w)" for h msg w
    using that by (simp add: endSession_close_rejected)
next
  assume ok: "fst (endSession D s) = Inr ()"
  show closed: "db (snd (endSession D s)) = None"
    using ok by (rule endSession_returns)
  show gone: "live (snd (endSession D s)) = (case db s of None \<Rightarrow> live s | Some h \<Rightarrow> remove1 h (live s))"
    using ok by (rule endSession_returns)
  show "endSession D (snd (endSession D s)) = (Inr (), snd (endSession D s))"
    using closed by (rule endSession_closed)
  show "h \<notin> set (live (snd (endSession D s)))" if "db s = Some h \<and> distinct (live s)" for h
    using that gone by simp
qed

theorem endSession_idempotent_witness:
  "db fresh = None \<and> endSession ok_driver fresh = (Inr (), fresh)
   \<and> db in_session = Some 0 \<and> distinct (live in_session)
   \<and> fst (drv_close ok_driver 0 (engine in_session)) = Inr ()
   \<and> fst (endSession ok_driver in_session) = Inr ()
   \<and> db (snd (endSession ok_driver in_session)) = None
   \<and> live (snd (endSession ok_driver in_session)) = []
   \<and> 0 \<notin> set (live (snd (endSession ok_driver in_session)))
   \<and> endSession ok_driver (snd (endSession ok_driver in_session))
       = (Inr (), snd (endSession ok_driver in_session))
   \<and> drv_close busy_driver 0 (engine in_session) = (Inl ''SQLITE_BUSY'', [])
   \<and> endSession busy_driver in_session = (Inl (DriverError ''SQLITE_BUSY''), in_session)"
proof -
  have closed: "db fresh = None"
    by (simp add: fresh_def)
  have held: "db in_session = Some 0 \<and> distinct (live in_session)"
    by (simp add: in_session_def)
  have resolved: "fst (drv_close ok_driver 0 (engine in_session)) = Inr ()"
    by (simp add: example_defs)
  have rejected: "drv_close busy_driver 0 (engine in_session) = (Inl ''SQLITE_BUSY'', [])"
    by (simp add: example_defs)
  have same: "in_session\<lparr>engine := []\<rparr> = in_session"
    by (simp add: in_session_def)
  note ok = endSession_idempotent [of in_session ok_driver]
  note busy = endSession_idempotent [of in_session busy_driver]
  have returns: "fst (endSession ok_driver in_session) = Inr ()"
    using ok held resolved by blast
  have thrown: "endSession busy_driver in_session = (Inl (DriverError ''SQLITE_BUSY''), in_session)"
    using busy held rejected same by metis
  have after: "db (snd (endSession ok_driver in_session)) = None
      \<and> live (snd (endSession ok_driver in_session)) = remove1 0 (live in_session)
      \<and> 0 \<notin> set (live (snd (endSession ok_driver in_session)))
      \<and> endSession ok_driver (snd (endSession ok_driver in_session))
          = (Inr (), snd (endSession ok_driver in_session))"
    using ok held returns by simp
  have emptied: "remove1 0 (live in_session) = []"
    by (simp add: in_session_def)
  show ?thesis
    using closed held resolved returns after emptied rejected thrown
      endSession_idempotent [of fresh ok_driver]
    by simp
qed

subsection \<open>The implicit session of a statement\<close>








subsection \<open>Statements inside a session\<close>

lemma caught_call_frame:
  assumes "\<And>s. db (snd (m s)) = db s \<and> live (snd (m s)) = live s"
  shows "db (snd (try_catch m (log_and_rethrow sql) s)) = db s \<and> live (snd (try_catch m (log_and_rethrow sql) s)) = live s"
  using assms[of s] by (auto simp: prog_defs split: prod.splits sum.splits)

lemma call_frames:
  "db (snd (call_exec D h sql s)) = db s \<and> live (snd (call_exec D h sql s)) = live s"
  "db (snd (call_run D h sql args s)) = db s \<and> live (snd (call_run D h sql args s)) = live s"
  "db (snd (call_get D h sql args s)) = db s \<and> live (snd (call_get D h sql args s)) = live s"
  "db (snd (call_all D h sql args s)) = db s \<and> live (snd (call_all D h sql args s)) = live s"
  by (auto simp: call_defs split: prod.splits sum.splits option.splits)

lemma exec_open: "db s = Some h \<Longrightarrow> exec D sql s = try_catch (call_exec D h sql) (log_and_rethrow sql) s"
  by (auto simp: exec_def prog_defs Let_def split: option.splits prod.splits sum.splits)

lemma run_open: "db s = Some h \<Longrightarrow> run D sql args s = try_catch (call_run D h sql args) (log_and_rethrow sql) s"
  by (auto simp: run_def prog_defs Let_def split: option.splits prod.splits sum.splits)

lemma get_open: "db s = Some h \<Longrightarrow> get D sql args s = try_catch (call_get D h sql args) (log_and_rethrow sql) s"
  by (auto simp: get_def prog_defs Let_def split: option.splits prod.splits sum.splits)

lemma all_open: "db s = Some h \<Longrightarrow> all D sql args s = try_catch (call_all D h sql args) (log_and_rethrow sql) s"
  by (auto simp: all_def prog_defs Let_def split: option.splits prod.splits sum.splits)

text \<open>
  C4. For every call of \<open>exec\<close>, \<open>run\<close>, \<open>get\<close> or \<open>all\<close> made while a session is active
  (the field holds \<open>h\<close>), the call is the driver's method on \<open>h\<close> inside the \<open>catch\<close>
  block, with no \<open>open\<close> and no \<open>close\<close>; after it the field still holds \<open>h\<close> and the
  live connections are the same, whether the statement succeeds or is rejected.
\<close>

theorem session_statement_keeps_handle:
  assumes "db s = Some h"
  shows "exec D sql s = try_catch (call_exec D h sql) (log_and_rethrow sql) s
    \<and> run D sql args s = try_catch (call_run D h sql args) (log_and_rethrow sql) s
    \<and> get D sql args s = try_catch (call_get D h sql args) (log_and_rethrow sql) s
    \<and> all D sql args s = try_catch (call_all D h sql args) (log_and_rethrow sql) s
    \<and> db (snd (exec D sql s)) = Some h \<and> live (snd (exec D sql s)) = live s
    \<and> db (snd (run D sql args s)) = Some h \<and> live (snd (run D sql args s)) = live s
    \<and> db (snd (get D sql args s)) = Some h \<and> live (snd (get D sql args s)) = live s
    \<and> db (snd (all D sql args s)) = Some h \<and> live (snd (all D sql args s)) = live s"
  using assms caught_call_frame [of "call_exec D h sql" sql s, OF call_frames(1)]
    caught_call_frame [of "call_run D h sql args" sql s, OF call_frames(2)]
    caught_call_frame [of "call_get D h sql args" sql s, OF call_frames(3)]
    caught_call_frame [of "call_all D h sql args" sql s, OF call_frames(4)]
  by (simp add: exec_open run_open get_open all_open)

theorem session_statement_keeps_handle_witness:
  "db in_session = Some 0
   \<and> fst (exec rejecting_driver ''SELEC'' in_session) = Inl (DriverError ''SQLITE_ERROR'')
   \<and> db (snd (exec rejecting_driver ''SELEC'' in_session)) = Some 0
   \<and> live (snd (exec rejecting_driver ''SELEC'' in_session)) = live in_session
   \<and> db (snd (run rejecting_driver ''SELEC'' [] in_session)) = Some 0
   \<and> db (snd (get rejecting_driver ''SELEC'' [] in_session)) = Some 0
   \<and> db (snd (all rejecting_driver ''SELEC'' [] in_session)) = Some 0"
proof -
  have held: "db in_session = Some 0"
    by (simp add: in_session_def)
  have fails: "fst (exec rejecting_driver ''SELEC'' in_session) = Inl (DriverError ''SQLITE_ERROR'')"
    by (simp add: exec_def call_defs prog_defs example_defs)
  show ?thesis
    using held fails session_statement_keeps_handle [OF held, of rejecting_driver "''SELEC''" "[]"]
    by blast
qed

subsection \<open>The check \<open>if (!this.db) throw 'DATABASE ERROR'\<close>\<close>

lemma opened_before_check:
  "(if \<not> (db s \<noteq> None) then createConnection D else return ()) s = (Inr (), s1) \<Longrightarrow> db s1 \<noteq> None"
  by (auto simp: createConnection_def return_def split: if_splits prod.splits sum.splits)

lemma run_no_DATABASE_ERROR: "fst (run D sql args s) \<noteq> Inl DATABASE_ERROR"
  by (auto simp: run_def createConnection_def endSession_def call_defs prog_defs Let_def
        DATABASE_ERROR_def
        split: option.splits prod.splits sum.splits)

lemma get_no_DATABASE_ERROR: "fst (get D sql args s) \<noteq> Inl DATABASE_ERROR"
  by (auto simp: get_def createConnection_def endSession_def call_defs prog_defs Let_def
        DATABASE_ERROR_def
        split: option.splits prod.splits sum.splits)

lemma all_no_DATABASE_ERROR: "fst (all D sql args s) \<noteq> Inl DATABASE_ERROR"
  by (auto simp: all_def createConnection_def endSession_def call_defs prog_defs Let_def
        DATABASE_ERROR_def
        split: option.splits prod.splits sum.splits)

text \<open>
  A call that takes its turns with no other call in between is the method as embedded
  above: after six turns it has settled with the completion of the method, in the state
  the method leaves.
\<close>

lemma call_method_frame: "db (snd (call_method D m h q a s)) = db s"
  by (cases m) (simp_all add: call_frames)

lemma invoke_open:
  "db s = Some h \<Longrightarrow> invoke D m q a s = try_catch (call_method D m h q a) (log_and_rethrow q) s"
  by (cases m) (simp_all add: run_open get_open all_open)

lemma invoke_closed:
  "db s = None \<Longrightarrow>
   invoke D m q a s =
     try_finally
       (try_catch (bind (createConnection D) (\<lambda>_. require_db (\<lambda>h. call_method D m h q a)))
          (log_and_rethrow q))
       (endSession D) s"
  by (cases m) (simp_all add: run_def get_def all_def)

lemma steps_Settled: "pc t = Settled out \<Longrightarrow> steps D n t s = (t, s)"
  by (induction n) (simp_all add: step_def)

lemma steps_invoke_open:
  assumes "db s = Some h"
  shows "steps D 6 (made m q a) s =
     ((made m q a)\<lparr>pc := Settled (fst (invoke D m q a s)), isInTransaction := (db s \<noteq> None)\<rparr>,
      snd (invoke D m q a s))"
proof (cases "call_method D m h q a s")
  case (Pair r s')
  show ?thesis
  proof (cases r)
    case (Inl err)
    with Pair assms show ?thesis
      by (simp add: numeral_eq_Suc made_def step_defs invoke_open prog_defs steps_Settled)
  next
    case (Inr v)
    with Pair assms show ?thesis
      by (simp add: numeral_eq_Suc made_def step_defs invoke_open prog_defs steps_Settled)
  qed
qed

lemma steps_invoke_closed:
  assumes "db s = None"
  shows "steps D 6 (made m q a) s =
     ((made m q a)\<lparr>pc := Settled (fst (invoke D m q a s)), isInTransaction := (db s \<noteq> None)\<rparr>,
      snd (invoke D m q a s))"
proof (cases "createConnection D s")
  case (Pair ro s1)
  show ?thesis
  proof (cases ro)
    case (Inl err)
    from Pair Inl have "db s1 = None"
      using assms by (auto simp: createConnection_def split: prod.splits sum.splits)
    with Pair Inl assms show ?thesis
      by (simp add: numeral_eq_Suc made_def step_defs invoke_closed prog_defs endSession_def)
  next
    case (Inr u)
    from Pair Inr obtain h where h: "db s1 = Some h"
      by (auto simp: createConnection_def split: prod.splits sum.splits)
    show ?thesis
    proof (cases "call_method D m h q a s1")
      case call: (Pair r s2)
      have h2: "db s2 = Some h"
        using call_method_frame [of D m h q a s1] call h by simp
      show ?thesis
      proof (cases r)
        case err: (Inl err)
        show ?thesis
        proof (cases "drv_close D h (engine s2)")
          case close: (Pair rc w)
          from Pair Inr h call h2 err close assms show ?thesis
            by (cases rc)
              (simp_all add: numeral_eq_Suc made_def step_defs invoke_closed prog_defs endSession_def)
        qed
      next
        case ok: (Inr v)
        show ?thesis
        proof (cases "drv_close D h (engine s2)")
          case close: (Pair rc w)
          from Pair Inr h call h2 ok close assms show ?thesis
            by (cases rc)
              (simp_all add: numeral_eq_Suc made_def step_defs invoke_closed prog_defs endSession_def)
        qed
      qed
    qed
  qed
qed

lemma steps_invoke:
  "steps D 6 (made m q a) s =
     ((made m q a)\<lparr>pc := Settled (fst (invoke D m q a s)), isInTransaction := (db s \<noteq> None)\<rparr>,
      snd (invoke D m q a s))"
  by (cases "db s") (simp_all add: steps_invoke_open steps_invoke_closed del: steps.simps)










subsection \<open>\<open>session\<close>\<close>

lemma session_block_throws:
  "beginSession D s = (Inr (), s1) \<Longrightarrow> block s1 = (Inl e, s2) \<Longrightarrow> session D block s = (Inl e, s2)"
  by (simp add: session_def bind_def)

lemma session_block_returns:
  "beginSession D s = (Inr (), s1) \<Longrightarrow> block s1 = (Inr (), s2) \<Longrightarrow> session D block s = endSession D s2"
  by (simp add: session_def bind_def)

lemma session_returns_closed:
  "fst (session D block s) = Inr () \<Longrightarrow> db (snd (session D block s)) = None"
  by (auto simp: session_def bind_def endSession_def split: prod.splits sum.splits option.splits)

text \<open>
  C1, where the block throws. \<open>session\<close> has no \<open>finally\<close>: the rejection of \<open>await block()\<close>
  leaves the method before \<open>endSession\<close>. On a fresh instance, with a block whose
  statement the driver rejects and with a block that throws at once, \<open>session\<close> ends with
  the block's error, the handle set and the connection live.
\<close>

theorem session_block_throws_stays_open:
  "db fresh = None
   \<and> fst (session rejecting_driver (exec rejecting_driver ''SELEC'') fresh) = Inl (DriverError ''SQLITE_ERROR'')
   \<and> db (snd (session rejecting_driver (exec rejecting_driver ''SELEC'') fresh)) = Some 0
   \<and> live (snd (session rejecting_driver (exec rejecting_driver ''SELEC'') fresh)) = [0]
   \<and> fst (session ok_driver (throw (Thrown ''boom'')) fresh) = Inl (Thrown ''boom'')
   \<and> db (snd (session ok_driver (throw (Thrown ''boom'')) fresh)) = Some 0
   \<and> live (snd (session ok_driver (throw (Thrown ''boom'')) fresh)) = [0]"
  by (simp add: session_def beginSession_def exec_def createConnection_def endSession_def call_defs prog_defs example_defs)

subsection \<open>\<open>get\<close> and its second copy\<close>

lemma get_2_never_a_row:
  "fst (get_2 D sql args s) \<noteq> Inr Undefined \<and> fst (get_2 D sql args s) \<noteq> Inr (Row r)"
  by (auto simp: get_2_def createConnection_def endSession_def call_defs prog_defs Let_def
        split: option.splits prod.splits sum.splits)

lemma get_at_most_one_row:
  "fst (get D sql args s) = Inr v \<Longrightarrow> v = Undefined \<or> (\<exists>r. v = Row r)"
  by (auto simp: get_def createConnection_def endSession_def call_defs prog_defs Let_def
        split: option.splits prod.splits sum.splits)

lemma get_no_row_in_session:
  "db s = Some h \<Longrightarrow> drv_get D h sql args (engine s) = (Inr None, w) \<Longrightarrow>
   get D sql args s = (Inr Undefined, s\<lparr>engine := w\<rparr>)"
  by (simp add: get_def call_defs prog_defs)

lemma get_no_row_closed:
  "db s = None \<Longrightarrow> drv_open D (engine s) = (Inr (), w1) \<Longrightarrow>
   drv_get D (next_handle s) sql args w1 = (Inr None, w2) \<Longrightarrow>
   drv_close D (next_handle s) w2 = (Inr (), w3) \<Longrightarrow>
   get D sql args s = (Inr Undefined, s\<lparr>next_handle := Suc (next_handle s), engine := w3\<rparr>)"
  by (simp add: get_def createConnection_def endSession_def call_defs prog_defs)

text \<open>
  C8, on a query that matches no row. The \<open>get\<close> of the first copy resolves to
  \<open>undefined\<close>; the \<open>get\<close> of the second copy calls the driver's \<open>run\<close> and resolves to its
  metadata object, outside a session and inside one.
\<close>

theorem get_2_returns_run_metadata:
  "fst (get no_rows_driver ''SELECT * FROM t WHERE 0'' [] fresh) = Inr Undefined
   \<and> fst (get_2 no_rows_driver ''SELECT * FROM t WHERE 0'' [] fresh) = Inr (RunResult 0 0)
   \<and> fst (get_2 no_rows_driver ''SELECT * FROM t WHERE 0'' [] in_session) = Inr (RunResult 0 0)"
  by (simp add: get_def get_2_def createConnection_def endSession_def call_defs prog_defs example_defs)

subsection \<open>\<open>createTable\<close>\<close>

lemma makeColumnSqlEntry_spec: "makeColumnSqlEntry c = spec_column_entry c"
  by (simp add: makeColumnSqlEntry_def spec_column_entry_def)

lemma join_column_entries: "join '','' (map makeColumnSqlEntry cs) = spec_column_entries cs"
  by (induction cs rule: spec_column_entries.induct) (simp_all add: makeColumnSqlEntry_spec)

lemma createTable_sql_spec: "createTable_sql table allowPreexisting = spec_create_table table allowPreexisting"
  by (simp add: createTable_sql_def spec_create_table_def join_column_entries Let_def)

text \<open>
  C5. For every table descriptor and either value of \<open>allowPreexisting\<close>, the string
  \<open>createTable\<close> builds is the statement as the specification words it: \<open>CREATE TABLE\<close>,
  the guard \<open>IF NOT EXISTS\<close> exactly when \<open>allowPreexisting\<close> is true, the name, and in
  parentheses the column entries in descriptor order, separated by commas, each with
  \<open>PRIMARY KEY\<close> exactly when the flag is set and \<open>NOT NULL\<close> exactly when \<open>allowNull\<close> is
  false; and \<open>createTable\<close> is \<open>exec\<close> on that string.
\<close>

theorem createTable_builds_statement:
  "createTable_sql table allowPreexisting = spec_create_table table allowPreexisting
   \<and> createTable D table allowPreexisting = exec D (spec_create_table table allowPreexisting)"
  by (simp add: createTable_def createTable_sql_spec)

theorem createTable_builds_statement_witness:
  "createTable_sql my_table_2 True = ''CREATE TABLE IF NOT EXISTS my_table_2 (foo INTEGER,bar TEXT);''
   \<and> createTable_sql keyed_table False = ''CREATE TABLE t (id INTEGER PRIMARY KEY NOT NULL,w REAL);''
   \<and> createTable ok_driver my_table_2 True
       = exec ok_driver ''CREATE TABLE IF NOT EXISTS my_table_2 (foo INTEGER,bar TEXT);''"
proof -
  have a: "spec_create_table my_table_2 True = ''CREATE TABLE IF NOT EXISTS my_table_2 (foo INTEGER,bar TEXT);''"
    by (simp add: spec_create_table_def my_table_2_def spec_column_entry_def column_default_def column_def)
  have b: "spec_create_table keyed_table False = ''CREATE TABLE t (id INTEGER PRIMARY KEY NOT NULL,w REAL);''"
    by (simp add: spec_create_table_def keyed_table_def spec_column_entry_def column_def)
  show ?thesis
    using createTable_builds_statement [of my_table_2 True ok_driver]
      createTable_builds_statement [of keyed_table False ok_driver]
    by (simp add: a b)
qed

subsection \<open>\<open>insert\<close>\<close>

lemma join_placeholders: "join '','' (map (\<lambda>_. ''?'') keys) = spec_placeholders (length keys)"
  by (induction keys rule: induct_list012) simp_all

lemma insert_keys_spec: "insert_keys entity = spec_insert_columns entity"
  by (simp add: insert_keys_def spec_insert_columns_def Object_keys_def)

lemma insert_sql_spec: "insert_sql entity = spec_insert entity"
  by (simp add: insert_sql_def spec_insert_def Let_def join_placeholders insert_keys_spec)

lemma keyValueMap_column:
  assumes "k \<in> set (spec_insert_columns entity)"
  shows "map_of (props entity) k = Some (keyValueMap entity k)"
proof -
  from assms have "k \<noteq> ''tableName''" and "k \<in> fst ` set (props entity)"
    by (auto simp: spec_insert_columns_def)
  then obtain v where "map_of (props entity) k = Some v"
    by (metis domD dom_map_of_conv_image_fst)
  with \<open>k \<noteq> ''tableName''\<close> show ?thesis
    by (simp add: keyValueMap_def)
qed

lemma map_of_own_value: "distinct (map fst ps) \<Longrightarrow> p \<in> set ps \<Longrightarrow> map_of ps (fst p) = Some (snd p)"
  by (cases p) simp

lemma sqlArgumentMap_values:
  assumes "distinct (map fst (props entity))"
  shows "sqlArgumentMap entity = map snd [p \<leftarrow> props entity. fst p \<noteq> ''tableName'']"
proof -
  have "keyValueMap entity (fst p) = snd p" if "p \<in> set (props entity)" "fst p \<noteq> ''tableName''" for p
    using that map_of_own_value [OF assms that(1)] by (simp add: keyValueMap_def)
  then show ?thesis
    by (simp add: sqlArgumentMap_def insert_keys_spec spec_insert_columns_def filter_map comp_def)
qed

text \<open>
  C6. For every entity, \<open>insert\<close> is \<open>run\<close> on the parameterized statement and the
  argument array; the column names are the fields other than \<open>tableName\<close>, in enumeration
  order; the value list is one \<open>?\<close> per column; the argument array has one value per
  column, the value of that column's field (for an object, whose keys are distinct: the
  values of the fields in order); and the SQL text is the same for any entity with the
  same table name and the same keys, whatever the values.
\<close>

theorem insert_builds_parameterized_statement:
  "insert_entity D entity = bind (run D (spec_insert entity) (sqlArgumentMap entity)) (\<lambda>_. return ())
   \<and> insert_keys entity = spec_insert_columns entity
   \<and> length (sqlArgumentMap entity) = length (spec_insert_columns entity)
   \<and> (\<forall>i. i < length (spec_insert_columns entity) \<longrightarrow>
         map_of (props entity) (spec_insert_columns entity ! i) = Some (sqlArgumentMap entity ! i))
   \<and> (distinct (map fst (props entity)) \<longrightarrow>
         sqlArgumentMap entity = map snd [p \<leftarrow> props entity. fst p \<noteq> ''tableName''])
   \<and> (\<forall>other. tableName other = tableName entity \<and> map fst (props other) = map fst (props entity)
         \<longrightarrow> insert_sql other = insert_sql entity)"
proof (intro conjI allI impI)
  show "insert_entity D entity = bind (run D (spec_insert entity) (sqlArgumentMap entity)) (\<lambda>_. return ())"
    by (simp add: insert_entity_def insert_sql_spec)
  show "insert_keys entity = spec_insert_columns entity"
    by (rule insert_keys_spec)
  show "length (sqlArgumentMap entity) = length (spec_insert_columns entity)"
    by (simp add: sqlArgumentMap_def insert_keys_spec)
  show "map_of (props entity) (spec_insert_columns entity ! i) = Some (sqlArgumentMap entity ! i)"
    if "i < length (spec_insert_columns entity)" for i
    using that keyValueMap_column [of "spec_insert_columns entity ! i" entity]
    by (simp add: sqlArgumentMap_def insert_keys_spec)
  show "sqlArgumentMap entity = map snd [p \<leftarrow> props entity. fst p \<noteq> ''tableName'']"
    if "distinct (map fst (props entity))"
    using that by (rule sqlArgumentMap_values)
  show "insert_sql other = insert_sql entity"
    if "tableName other = tableName entity \<and> map fst (props other) = map fst (props entity)" for other
    using that by (simp add: insert_sql_spec spec_insert_def spec_insert_columns_def)
qed

theorem insert_builds_parameterized_statement_witness:
  "spec_insert testObj = ''INSERT INTO my_table_2 ( foo,bar ) VALUES (?,?)''
   \<and> insert_entity ok_driver testObj
       = bind (run ok_driver ''INSERT INTO my_table_2 ( foo,bar ) VALUES (?,?)'' [JNum 1337, JStr ''potato''])
           (\<lambda>_. return ())
   \<and> insert_keys testObj = [''foo'', ''bar'']
   \<and> (1::nat) < length (spec_insert_columns testObj)
   \<and> map_of (props testObj) (spec_insert_columns testObj ! 1) = Some (JStr ''potato'')
   \<and> distinct (map fst (props testObj))
   \<and> sqlArgumentMap testObj = [JNum 1337, JStr ''potato'']
   \<and> tableName quoteObj = tableName testObj \<and> map fst (props quoteObj) = map fst (props testObj)
   \<and> insert_sql quoteObj = insert_sql testObj
   \<and> sqlArgumentMap quoteObj = [JNum 0, JStr ''x'); DROP TABLE t;--'']"
proof -
  have sql: "spec_insert testObj = ''INSERT INTO my_table_2 ( foo,bar ) VALUES (?,?)''"
    by (simp add: spec_insert_def spec_insert_columns_def testObj_def)
  have cols: "spec_insert_columns testObj = [''foo'', ''bar'']"
    by (simp add: spec_insert_columns_def testObj_def)
  have keys: "distinct (map fst (props testObj))" "distinct (map fst (props quoteObj))"
    by (simp_all add: testObj_def quoteObj_def)
  have same: "tableName quoteObj = tableName testObj \<and> map fst (props quoteObj) = map fst (props testObj)"
    by (simp add: testObj_def quoteObj_def)
  have vals: "map snd [p \<leftarrow> props testObj. fst p \<noteq> ''tableName''] = [JNum 1337, JStr ''potato'']"
    "map snd [p \<leftarrow> props quoteObj. fst p \<noteq> ''tableName''] = [JNum 0, JStr ''x'); DROP TABLE t;--'']"
    by (simp_all add: testObj_def quoteObj_def)
  note t = insert_builds_parameterized_statement [of ok_driver testObj]
  note q = insert_builds_parameterized_statement [of ok_driver quoteObj]
  have args: "sqlArgumentMap testObj = [JNum 1337, JStr ''potato'']"
    using t keys vals by simp
  have qargs: "sqlArgumentMap quoteObj = [JNum 0, JStr ''x'); DROP TABLE t;--'']"
    using q keys vals by simp
  have second: "map_of (props testObj) (spec_insert_columns testObj ! 1) = Some (JStr ''potato'')"
  proof -
    from t have "1 < length (spec_insert_columns testObj) \<longrightarrow>
        map_of (props testObj) (spec_insert_columns testObj ! 1) = Some (sqlArgumentMap testObj ! 1)"
      by blast
    then show ?thesis
      using cols args by simp
  qed
  have indep: "insert_sql quoteObj = insert_sql testObj"
    using t same by blast
  have ins: "insert_entity ok_driver testObj
       = bind (run ok_driver ''INSERT INTO my_table_2 ( foo,bar ) VALUES (?,?)'' [JNum 1337, JStr ''potato''])
           (\<lambda>_. return ())"
    using t sql args by simp
  have ks: "insert_keys testObj = [''foo'', ''bar'']"
    using t cols by simp
  show ?thesis
    using sql ins ks cols second keys args same indep qargs by simp
qed

subsection \<open>One live connection\<close>

lemma one_handle_createConnection:
  "one_handle s \<Longrightarrow> db s = None \<Longrightarrow> one_handle (snd (createConnection D s))"
  by (auto simp: one_handle_def createConnection_def split: prod.splits sum.splits)

lemma one_handle_endSession: "one_handle s \<Longrightarrow> one_handle (snd (endSession D s))"
  by (auto simp: one_handle_def endSession_def split: option.splits prod.splits sum.splits)

lemma one_handle_exec: "one_handle s \<Longrightarrow> one_handle (snd (exec D sql s))"
  by (auto simp: one_handle_def exec_def createConnection_def endSession_def call_defs prog_defs Let_def
      split: option.splits prod.splits sum.splits)

lemma one_handle_run: "one_handle s \<Longrightarrow> one_handle (snd (run D sql args s))"
  by (auto simp: one_handle_def run_def createConnection_def endSession_def call_defs prog_defs Let_def
      split: option.splits prod.splits sum.splits)

lemma one_handle_get: "one_handle s \<Longrightarrow> one_handle (snd (get D sql args s))"
  by (auto simp: one_handle_def get_def createConnection_def endSession_def call_defs prog_defs Let_def
      split: option.splits prod.splits sum.splits)

lemma one_handle_all: "one_handle s \<Longrightarrow> one_handle (snd (all D sql args s))"
  by (auto simp: one_handle_def all_def createConnection_def endSession_def call_defs prog_defs Let_def
      split: option.splits prod.splits sum.splits)

lemma snd_discard: "snd (bind m (\<lambda>_. return ()) s) = snd (m s)"
  by (simp add: bind_def return_def split: prod.splits sum.splits)

lemma one_handle_session:
  assumes "one_handle s" and "db s = None"
    and "\<And>s1. beginSession D s = (Inr (), s1) \<Longrightarrow> one_handle (snd (block s1))"
  shows "one_handle (snd (session D block s))"
proof (cases "beginSession D s")
  case (Pair r s1)
  have s1: "one_handle s1"
    using one_handle_createConnection [OF assms(1,2), of D] Pair by (simp add: beginSession_def)
  show ?thesis
  proof (cases r)
    case (Inl e)
    with Pair s1 show ?thesis
      by (simp add: session_def bind_def)
  next
    case (Inr u)
    with Pair have b: "one_handle (snd (block s1))"
      using assms(3) by simp
    show ?thesis
    proof (cases "block s1")
      case (Pair r2 s2)
      with b Inr \<open>beginSession D s = (r, s1)\<close> show ?thesis
        by (cases r2) (simp_all add: session_def bind_def one_handle_endSession)
    qed
  qed
qed

lemma one_handle_perform:
  "one_handle s \<Longrightarrow> keeps_protocol D c s \<Longrightarrow> one_handle (snd (perform D c s))"
  "one_handle s \<Longrightarrow> block_keeps_protocol D cs s \<Longrightarrow> one_handle (snd (perform_block D cs s))"
proof (induction D c s and D cs s rule: keeps_protocol_block_keeps_protocol.induct)
  case (1 D s)
  then show ?case
    by (simp add: beginSession_def one_handle_createConnection)
next
  case (2 D cs s)
  show ?case
    unfolding perform.simps
  proof (rule one_handle_session)
    show "one_handle s" by fact
    show "db s = None" using "2.prems" by simp
    show "one_handle (snd (perform_block D cs s1))" if "beginSession D s = (Inr (), s1)" for s1
    proof (rule "2.IH")
      show "(Inr (), s1) = beginSession D s" using that by simp
      show "Inr () = Inr ()" by simp
      show "one_handle s1"
        using one_handle_createConnection [of s D] "2.prems" that by (simp add: beginSession_def)
      show "block_keeps_protocol D cs s1"
        using "2.prems" that by simp
    qed
  qed
next
  case (10 D s)
  then show ?case by (simp add: return_def)
next
  case (11 D c cs s)
  have c: "one_handle (snd (perform D c s))"
    using 11 by simp
  show ?case
  proof (cases "perform D c s")
    case (Pair r s')
    show ?thesis
    proof (cases r)
      case (Inl e)
      with Pair c show ?thesis by (simp add: bind_def)
    next
      case (Inr u)
      have "one_handle (snd (perform_block D cs s'))"
      proof (rule "11.IH"(2))
        show "(r, s') = perform D c s" using Pair by simp
        show "r = Inr u" by fact
        show "one_handle s'" using c Pair by simp
        show "block_keeps_protocol D cs s'" using "11.prems" Pair Inr by simp
      qed
      with Pair Inr show ?thesis by (simp add: bind_def)
    qed
  qed
qed (simp_all add: one_handle_endSession one_handle_exec one_handle_run one_handle_get one_handle_all
      snd_discard createTable_def insert_entity_def)

lemma one_handle_length: "one_handle s \<Longrightarrow> length (live s) \<le> 1"
  by (simp add: one_handle_def split: option.splits)

text \<open>
  C2, at two calls of \<open>beginSession\<close> on a fresh instance: the second opens a second
  connection and overwrites the field; two connections are live and the first is no
  longer referenced, so nothing can close it.
\<close>

theorem second_beginSession_leaks:
  "db (perform_all ok_driver [BeginSession, BeginSession] fresh) = Some 1
   \<and> live (perform_all ok_driver [BeginSession, BeginSession] fresh) = [1, 0]
   \<and> \<not> length (live (perform_all ok_driver [BeginSession, BeginSession] fresh)) \<le> 1"
  by (simp add: beginSession_def createConnection_def example_defs)

lemma one_handle_perform_all:
  "one_handle s \<Longrightarrow> begins_when_closed D cs s \<Longrightarrow> one_handle (perform_all D cs s)"
proof (induction cs arbitrary: s)
  case Nil
  then show ?case
    by simp
next
  case (Cons c cs)
  from Cons.prems have "one_handle (snd (perform D c s))"
    by (simp add: one_handle_perform)
  moreover from Cons.prems have "begins_when_closed D cs (snd (perform D c s))"
    by simp
  ultimately show ?case
    using Cons.IH by simp
qed

text \<open>
  What the other methods keep: from a state in which the field holds the only live
  connection (or is null, none being live), every call other than a \<open>beginSession\<close> or a
  \<open>session\<close> made while the field is set leaves such a state again.
\<close>

lemma paired_sessions_one_handle:
  assumes "one_handle s" and "begins_when_closed D cs s"
  shows "one_handle (perform_all D cs s) \<and> length (live (perform_all D cs s)) \<le> 1"
  using one_handle_perform_all [OF assms] one_handle_length by blast

lemma paired_sessions_one_handle_example:
  "one_handle fresh \<and> begins_when_closed ok_driver demo_calls fresh
   \<and> one_handle (perform_all ok_driver demo_calls fresh)
   \<and> live (perform_all ok_driver demo_calls fresh) = [5]
   \<and> length (live (perform_all ok_driver demo_calls fresh)) \<le> 1
   \<and> begins_when_closed rejecting_driver careful_calls fresh
   \<and> one_handle (perform_all rejecting_driver careful_calls fresh)
   \<and> live (perform_all rejecting_driver careful_calls fresh) = [2]"
proof -
  have start: "one_handle fresh"
    by (simp add: one_handle_def fresh_def)
  have paired: "begins_when_closed ok_driver demo_calls fresh"
    by (simp add: demo_calls_def session_def beginSession_def createConnection_def endSession_def
        exec_def run_def get_def all_def createTable_def insert_entity_def call_defs prog_defs
        example_defs)
  have final: "live (perform_all ok_driver demo_calls fresh) = [5]"
    by (simp add: demo_calls_def session_def beginSession_def createConnection_def endSession_def
        exec_def run_def get_def all_def createTable_def insert_entity_def call_defs prog_defs
        example_defs)
  have careful: "begins_when_closed rejecting_driver careful_calls fresh"
    by (simp add: careful_calls_def session_def beginSession_def createConnection_def
        endSession_def exec_def call_defs prog_defs example_defs)
  have final': "live (perform_all rejecting_driver careful_calls fresh) = [2]"
    by (simp add: careful_calls_def session_def beginSession_def createConnection_def
        endSession_def exec_def call_defs prog_defs example_defs)
  show ?thesis
    using start paired final careful final'
      paired_sessions_one_handle [OF start paired] paired_sessions_one_handle [OF start careful]
    by simp
qed

end
